theory Spec2Isabelle
  imports Main
begin

section \<open>Strings and the URL pattern of the scanner\<close>

text \<open>
  Text handled at run time (the recognised text, the detected URL, the URL field of the
  form) is a JavaScript string: a sequence of UTF-16 code units, here natural numbers.
  Message literals of the source are written as HOL strings.
\<close>

type_synonym js_string = "nat list"

text \<open>
  The class \<^verbatim>\<open>\s\<close> of a JavaScript regular expression: TAB, LF, VT, FF, CR, SPACE,
  NBSP, U+1680, U+2000 to U+200A, U+2028, U+2029, U+202F, U+205F, U+3000 and U+FEFF
  (the white space and line terminators of ECMAScript, with the space separators of
  Unicode 6.3 and later). The pattern has no \<^verbatim>\<open>u\<close> flag, so it reads code units.
\<close>

definition is_space :: "nat \<Rightarrow> bool" where
  "is_space c \<longleftrightarrow>
     c = 9 \<or> c = 10 \<or> c = 11 \<or> c = 12 \<or> c = 13 \<or> c = 32 \<or> c = 160 \<or> c = 5760 \<or>
     (8192 \<le> c \<and> c \<le> 8202) \<or> c = 8232 \<or> c = 8233 \<or> c = 8239 \<or> c = 8287 \<or>
     c = 12288 \<or> c = 65279"

text \<open>The code units of \<^verbatim>\<open>http\<close>, of \<^verbatim>\<open>s\<close> and of \<^verbatim>\<open>://\<close>.\<close>

definition http :: js_string where
  "http = [104, 116, 116, 112]"

definition letter_s :: nat where
  "letter_s = 115"

definition colon_slashes :: js_string where
  "colon_slashes = [58, 47, 47]"

fun strip_prefix :: "'a list \<Rightarrow> 'a list \<Rightarrow> 'a list option" where
  "strip_prefix [] t = Some t"
| "strip_prefix (p # ps) [] = None"
| "strip_prefix (p # ps) (c # cs) = (if p = c then strip_prefix ps cs else None)"

text \<open>
  \<^verbatim>\<open>/(https?:\/\/[^\s]+)/g\<close> tried at the start of \<open>t\<close>. \<open>match_tail\<close> is the part
  \<^verbatim>\<open>:\/\/[^\s]+\<close>: the greedy \<^verbatim>\<open>+\<close> takes the whole run of non-space code units, and
  nothing follows it in the pattern. \<open>match_here\<close> tries the greedy \<^verbatim>\<open>s?\<close> with the
  \<^verbatim>\<open>s\<close> first and backtracks to the empty alternative. The result is the matched text.
\<close>

definition match_tail :: "js_string \<Rightarrow> js_string option" where
  "match_tail t =
     (case strip_prefix colon_slashes t of
        None \<Rightarrow> None
      | Some b \<Rightarrow>
          (let run = takeWhile (\<lambda>c. \<not> is_space c) b
           in if run = [] then None else Some (colon_slashes @ run)))"

definition match_here :: "js_string \<Rightarrow> js_string option" where
  "match_here t =
     (case strip_prefix http t of
        None \<Rightarrow> None
      | Some r \<Rightarrow>
          (case (case r of
                   [] \<Rightarrow> None
                 | c # r' \<Rightarrow> if c = letter_s then match_tail r' else None) of
             Some m \<Rightarrow> Some (http @ [letter_s] @ m)
           | None \<Rightarrow>
               (case match_tail r of
                  Some m \<Rightarrow> Some (http @ m)
                | None \<Rightarrow> None)))"

lemma strip_prefix_Some: "strip_prefix p t = Some r \<longleftrightarrow> t = p @ r"
  by (induction p t rule: strip_prefix.induct) auto

lemma match_tail_length: "match_tail t = Some m \<Longrightarrow> 0 < length m"
  by (auto simp: match_tail_def Let_def split: option.splits if_splits)

lemma match_here_length: "match_here t = Some m \<Longrightarrow> 0 < length m"
  by (auto simp: match_here_def http_def split: option.splits list.splits if_splits)

text \<open>
  \<^verbatim>\<open>text.match(urlRegex)\<close> with the \<^verbatim>\<open>g\<close> flag: all matches from left to right, each
  search resuming where the previous match ended; \<^verbatim>\<open>null\<close> when there is none.
\<close>

function (sequential) match_all :: "js_string \<Rightarrow> js_string list" where
  "match_all [] = []"
| "match_all (c # cs) =
     (case match_here (c # cs) of
        Some m \<Rightarrow> m # match_all (drop (length m) (c # cs))
      | None \<Rightarrow> match_all cs)"
  by pat_completeness auto
termination
  by (relation "measure length") (auto dest: match_here_length)

definition js_match :: "js_string \<Rightarrow> js_string list option" where
  "js_match t = (case match_all t of [] \<Rightarrow> None | ms \<Rightarrow> Some ms)"


section \<open>The scanner widget (src/components/url-scanner.tsx)\<close>

text \<open>
  \<open>camera_session\<close> is the component's state: one field per \<^verbatim>\<open>useState\<close> hook, under
  the hook's name. A \<^verbatim>\<open>MediaStream\<close> is an object of the platform: the state holds a
  reference to it (\<open>stream_id\<close>) and the store \<open>devices\<close> gives the
  \<^verbatim>\<open>readyState\<close> of each of its tracks, so that a stream stays observable after the
  state drops its reference. The captured image is the data URL string.
\<close>

datatype track_state = Live | Ended

type_synonym stream_id = nat

type_synonym devices = "stream_id \<Rightarrow> track_state list"

record camera_session =
  isOpen :: bool
  isProcessing :: bool
  stream :: "stream_id option"
  capturedImage :: "string option"
  isCameraReady :: bool

text \<open>What a handler does that is visible outside the state.\<close>

datatype effect =
    Alert string
  | ConsoleError string
  | ConsoleLog string js_string
  | OnUrlDetected js_string
  | WorkerRecognize string

text \<open>
  A handler is a closure of one render: it reads the state of that render (\<open>snap\<close>)
  whatever it has set in the meantime, and each setter call replaces the field in
  the state of the next render, the last call winning. \<open>pending\<close> is what a handler has
  done so far: the store, the next state and the effects in order.
\<close>

record pending =
  dev :: devices
  nxt :: camera_session
  effects :: "effect list"

definition setIsOpen :: "bool \<Rightarrow> pending \<Rightarrow> pending" where
  "setIsOpen b p = p\<lparr>nxt := (nxt p)\<lparr>isOpen := b\<rparr>\<rparr>"

definition setIsProcessing :: "bool \<Rightarrow> pending \<Rightarrow> pending" where
  "setIsProcessing b p = p\<lparr>nxt := (nxt p)\<lparr>isProcessing := b\<rparr>\<rparr>"

definition setStream :: "stream_id option \<Rightarrow> pending \<Rightarrow> pending" where
  "setStream v p = p\<lparr>nxt := (nxt p)\<lparr>stream := v\<rparr>\<rparr>"

definition setCapturedImage :: "string option \<Rightarrow> pending \<Rightarrow> pending" where
  "setCapturedImage v p = p\<lparr>nxt := (nxt p)\<lparr>capturedImage := v\<rparr>\<rparr>"

definition setIsCameraReady :: "bool \<Rightarrow> pending \<Rightarrow> pending" where
  "setIsCameraReady b p = p\<lparr>nxt := (nxt p)\<lparr>isCameraReady := b\<rparr>\<rparr>"

definition emit :: "effect \<Rightarrow> pending \<Rightarrow> pending" where
  "emit e p = p\<lparr>effects := effects p @ [e]\<rparr>"

text \<open>\<^verbatim>\<open>stream.getTracks().forEach(track => track.stop())\<close>\<close>

definition stopTracks :: "stream_id \<Rightarrow> pending \<Rightarrow> pending" where
  "stopTracks h p = p\<lparr>dev := (dev p)(h := map (\<lambda>_. Ended) (dev p h))\<rparr>"

text \<open>
  The answer of \<^verbatim>\<open>navigator.mediaDevices.getUserMedia\<close>: the promise rejects, or
  resolves to a stream.
\<close>

datatype camera_outcome = Denied | Granted stream_id

text \<open>
  \<open>startCamera\<close> is suspended at \<^verbatim>\<open>await navigator.mediaDevices.getUserMedia\<close>:
  \<open>startCamera_begin\<close> is what it does before, \<open>startCamera_resume\<close> what it does once the
  promise has settled (it then reads no state, it only calls setters), and other handlers
  can run in between. \<open>startCamera\<close> is the two with nothing in between.
\<close>

definition startCamera_begin :: "pending \<Rightarrow> pending" where
  "startCamera_begin p = setIsCameraReady False p"

definition startCamera_resume :: "camera_outcome \<Rightarrow> pending \<Rightarrow> pending" where
  "startCamera_resume outcome p =
     (case outcome of
        Granted mediaStream \<Rightarrow> setStream (Some mediaStream) p
      | Denied \<Rightarrow>
          emit (Alert ''Unable to access camera. Please make sure you have granted camera permissions.'')
            (emit (ConsoleError ''Error accessing camera:'') p))"

definition startCamera :: "camera_outcome \<Rightarrow> pending \<Rightarrow> pending" where
  "startCamera outcome p = startCamera_resume outcome (startCamera_begin p)"

definition stopCamera :: "camera_session \<Rightarrow> pending \<Rightarrow> pending" where
  "stopCamera snap p =
     (let p1 = (case stream snap of
                  Some h \<Rightarrow> setStream None (stopTracks h p)
                | None \<Rightarrow> p)
      in setIsCameraReady False (setCapturedImage None p1))"

text \<open>
  \<open>handleOpen\<close> does not wait for \<open>startCamera\<close>: \<open>handleOpen_pending\<close> is the handler up
  to its return, with the camera request pending; \<open>handleOpen\<close> is the handler together
  with the answer, when nothing else happens before the answer.
\<close>

definition handleOpen_pending :: "pending \<Rightarrow> pending" where
  "handleOpen_pending p = startCamera_begin (setIsOpen True p)"

definition handleOpen :: "camera_outcome \<Rightarrow> pending \<Rightarrow> pending" where
  "handleOpen outcome p = startCamera outcome (setIsOpen True p)"

definition handleClose :: "camera_session \<Rightarrow> pending \<Rightarrow> pending" where
  "handleClose snap p = stopCamera snap (setIsOpen False p)"

text \<open>
  What \<open>captureImage\<close> finds in the page: whether \<^verbatim>\<open>videoRef.current\<close> is set, whether
  the canvas gives a 2D context, \<^verbatim>\<open>video.readyState\<close>, and the string that
  \<^verbatim>\<open>canvas.toDataURL('image/jpeg', 0.9)\<close> returns.
\<close>

record video_env =
  videoPresent :: bool
  ctxAvailable :: bool
  readyState :: nat
  imageData :: string

definition HAVE_ENOUGH_DATA :: nat where
  "HAVE_ENOUGH_DATA = 4"

text \<open>
  The body of a \<^verbatim>\<open>try\<close> block yields what was done up to its end, its \<^verbatim>\<open>return\<close> or
  its \<^verbatim>\<open>throw\<close>, and the message of the error thrown, if any.
\<close>

definition captureImage_try :: "camera_session \<Rightarrow> video_env \<Rightarrow> pending \<Rightarrow> string option \<times> pending" where
  "captureImage_try snap env p =
     (let p1 = setIsProcessing True p
      in if \<not> ctxAvailable env then (None, p1)
         else if readyState env = HAVE_ENOUGH_DATA then
           (if imageData env \<noteq> [] \<and> length (imageData env) > 100
            then (None, stopCamera snap (setCapturedImage (Some (imageData env)) p1))
            else (Some ''Failed to capture image'', p1))
         else (Some ''Video not ready'', p1))"

definition captureImage :: "camera_session \<Rightarrow> video_env \<Rightarrow> pending \<Rightarrow> pending" where
  "captureImage snap env p =
     (if \<not> videoPresent env \<or> \<not> isCameraReady snap then p
      else
        (let (thrown, p1) = captureImage_try snap env p;
             p2 = (case thrown of
                     None \<Rightarrow> p1
                   | Some err \<Rightarrow>
                       setCapturedImage None
                         (emit (Alert ''Error capturing image. Please try again.'')
                           (emit (ConsoleError ''Error capturing image:'') p1)))
         in setIsProcessing False p2))"

definition retakePhoto_pending :: "pending \<Rightarrow> pending" where
  "retakePhoto_pending p = startCamera_begin (setCapturedImage None p)"

definition retakePhoto :: "camera_outcome \<Rightarrow> pending \<Rightarrow> pending" where
  "retakePhoto outcome p = startCamera outcome (setCapturedImage None p)"

text \<open>
  The recognition engine: creating, loading or initialising the worker fails; the call
  of \<^verbatim>\<open>recognize\<close> fails; \<^verbatim>\<open>terminate\<close> fails after the text was recognised; or the
  text comes back.
\<close>

datatype ocr_outcome =
    SetupFailed
  | RecognizeFailed
  | TerminateFailed
  | Recognized js_string

definition confirmImage_try :: "camera_session \<Rightarrow> string \<Rightarrow> ocr_outcome \<Rightarrow> pending \<Rightarrow> string option \<times> pending" where
  "confirmImage_try snap img ocr p =
     (let p1 = setIsProcessing True p;
          p2 = emit (WorkerRecognize img) p1
      in case ocr of
           SetupFailed \<Rightarrow> (Some ''worker'', p1)
         | RecognizeFailed \<Rightarrow> (Some ''recognize'', p2)
         | TerminateFailed \<Rightarrow> (Some ''terminate'', p2)
         | Recognized text \<Rightarrow>
             (case js_match text of
                Some (detectedUrl # rest) \<Rightarrow>
                  (None, handleClose snap
                     (emit (OnUrlDetected detectedUrl)
                       (emit (ConsoleLog ''Detected URL:'' detectedUrl) p2)))
              | _ \<Rightarrow>
                  (None, emit (Alert ''No URL detected in the image. Please try again.'') p2)))"

text \<open>
  \<^verbatim>\<open>if (capturedImage)\<close> is JavaScript truthiness of a \<^verbatim>\<open>string | null\<close>: \<^verbatim>\<open>null\<close> and
  the empty string are falsy.
\<close>

definition confirmImage :: "camera_session \<Rightarrow> ocr_outcome \<Rightarrow> pending \<Rightarrow> pending" where
  "confirmImage snap ocr p =
     (case capturedImage snap of
        None \<Rightarrow> p
      | Some img \<Rightarrow>
          if img = [] then p
          else
            (let (thrown, p1) = confirmImage_try snap img ocr p;
                 p2 = (case thrown of
                         None \<Rightarrow> p1
                       | Some err \<Rightarrow>
                           emit (Alert ''Error recognizing URL. Please try again.'')
                             (emit (ConsoleError ''Error recognizing URL:'') p1))
             in setIsProcessing False p2))"

text \<open>The listener of the video's \<^verbatim>\<open>loadeddata\<close> event.\<close>

definition handleVideoReady :: "pending \<Rightarrow> pending" where
  "handleVideoReady p = setIsCameraReady True p"

text \<open>
  One step of the widget, run on the state \<open>s\<close> of the current render and the store
  \<open>w\<close>, together with what the platform answers during it. \<open>Open\<close> and \<open>Retake\<close> are the
  handlers with the camera's answer taken at once; \<open>OpenPending\<close> and \<open>RetakePending\<close> are
  the handlers alone, which leave the camera request pending, and \<open>CameraAnswer\<close> is the
  rest of \<open>startCamera\<close>, run when the request settles. \<open>Capture\<close> has no \<^verbatim>\<open>await\<close>;
  \<open>Confirm\<close> takes the answer of the engine within its step.
\<close>

datatype action =
    Open camera_outcome
  | Close
  | Capture video_env
  | Retake camera_outcome
  | Confirm ocr_outcome
  | VideoLoadedData
  | OpenPending
  | RetakePending
  | CameraAnswer camera_outcome

definition start :: "devices \<Rightarrow> camera_session \<Rightarrow> pending" where
  "start w s = \<lparr>dev = w, nxt = s, effects = []\<rparr>"

fun step :: "action \<Rightarrow> devices \<Rightarrow> camera_session \<Rightarrow> pending" where
  "step (Open outcome) w s = handleOpen outcome (start w s)"
| "step Close w s = handleClose s (start w s)"
| "step (Capture env) w s = captureImage s env (start w s)"
| "step (Retake outcome) w s = retakePhoto outcome (start w s)"
| "step (Confirm ocr) w s = confirmImage s ocr (start w s)"
| "step VideoLoadedData w s = handleVideoReady (start w s)"
| "step OpenPending w s = handleOpen_pending (start w s)"
| "step RetakePending w s = retakePhoto_pending (start w s)"
| "step (CameraAnswer outcome) w s = startCamera_resume outcome (start w s)"

text \<open>
  Steps one after the other: each runs on the store and the state the one before it has
  left, and the effects add up.
\<close>

fun run :: "action list \<Rightarrow> devices \<Rightarrow> camera_session \<Rightarrow> pending" where
  "run [] w s = start w s"
| "run (a # rest) w s =
     (let p = step a w s; q = run rest (dev p) (nxt p)
      in q\<lparr>effects := effects p @ effects q\<rparr>)"


section \<open>The analysis result and the mock backend (src/app/actions.ts, src/app/page.tsx)\<close>

text \<open>
  An \<^verbatim>\<open>AnalysisResult\<close> is an object literal: its categories in the order they are
  written (the page renders \<^verbatim>\<open>Object.entries\<close> of it), each with a score and a list of
  issues. The code copies scores and never computes with them, so their type is a
  parameter; the mock's scores are integers.
\<close>

record ('n, 'i) category =
  score :: 'n
  issues :: "'i list"

type_synonym ('n, 'i) analysis_result = "(string \<times> ('n, 'i) category) list"

definition analyzeWebsite :: "js_string \<Rightarrow> (int, string) analysis_result" where
  "analyzeWebsite url =
     [(''ssl'',
         \<lparr>score = 85, issues = [''Certificate expires in 30 days'', ''TLS 1.2 supported'']\<rparr>),
      (''contentSecurity'',
         \<lparr>score = 70, issues = [''Missing CSP header'', ''X-Frame-Options not set'']\<rparr>),
      (''vulnerabilities'',
         \<lparr>score = 90, issues = [''No critical vulnerabilities found'', ''Server version exposed'']\<rparr>)]"

text \<open>The state of the page component \<^verbatim>\<open>Home\<close>, and a form event by its identity.\<close>

record 'r home =
  analysisResult :: "'r option"
  isLoading :: bool

type_synonym form_event = nat

text \<open>
  The closure \<^verbatim>\<open>() => handleSubmit(e)\<close> under the retry button: the handler of the render
  that made it, which holds that render's \<^verbatim>\<open>url\<close>, and the event.
\<close>

datatype callback = HandleSubmit js_string form_event

record toast_action =
  label :: string
  onClick :: callback

text \<open>The arrow function that \<open>handleSubmit\<close> of src/app/page.tsx passes to \<^verbatim>\<open>setTimeout\<close>.\<close>

datatype timer_callback = ShowMockResult

datatype page_effect =
    PreventDefault form_event
  | SetTimeout timer_callback nat
  | ToastLoading string string
  | Fetch js_string
  | ToastSuccess string string
  | ToastError string string toast_action nat
  | ConsoleErr string

text \<open>
  \<open>handleSubmit\<close> of src/app/page.tsx sets the loading flag and arms a timer of 2000 ms
  with its callback; \<open>page_timeout\<close> is the body of that callback. \<open>fire_timers\<close> is the
  page once the timers armed by a handler have fired: it runs their callbacks in order.
\<close>

definition page_handleSubmit ::
  "form_event \<Rightarrow> (int, string) analysis_result home \<Rightarrow>
   (int, string) analysis_result home \<times> page_effect list" where
  "page_handleSubmit e s =
     (s\<lparr>isLoading := True\<rparr>, [PreventDefault e, SetTimeout ShowMockResult 2000])"

definition page_timeout ::
  "(int, string) analysis_result home \<Rightarrow> (int, string) analysis_result home" where
  "page_timeout s =
     s\<lparr>analysisResult := Some
         [(''ssl'',
             \<lparr>score = 85, issues = [''Certificate expires in 30 days'', ''TLS 1.2 supported'']\<rparr>),
          (''contentSecurity'',
             \<lparr>score = 70, issues = [''Missing CSP header'', ''X-Frame-Options not set'']\<rparr>),
          (''vulnerabilities'',
             \<lparr>score = 90, issues = [''No critical vulnerabilities found'', ''Server version exposed'']\<rparr>)],
       isLoading := False\<rparr>"

fun run_timer ::
  "timer_callback \<Rightarrow> (int, string) analysis_result home \<Rightarrow> (int, string) analysis_result home" where
  "run_timer ShowMockResult s = page_timeout s"

fun fire_timers ::
  "page_effect list \<Rightarrow> (int, string) analysis_result home \<Rightarrow> (int, string) analysis_result home" where
  "fire_timers [] s = s"
| "fire_timers (SetTimeout cb delay # es) s = fire_timers es (run_timer cb s)"
| "fire_timers (e # es) s = fire_timers es s"

section \<open>The page with the remote backend (src/unnamed/part_000)\<close>

datatype severity = High | Medium | Low | Info

record security_issue =
  message :: string
  severity :: severity

text \<open>
  The JSON body the page expects, with the types it uses the fields at:
  \<^verbatim>\<open>security_headers\<close> as the list of its entries (values as \<^verbatim>\<open>String(value)\<close> prints
  them), the lists as lists of strings. \<^verbatim>\<open>xss_check.issues\<close> is \<open>xss_check_issues\<close>, and so
  on for the nested fields.
\<close>

record 'n api_response =
  overall_score :: 'n
  security_headers :: "(string \<times> string) list"
  recommendations :: "string list"
  xss_check_issues :: "string list"
  phishing_check_suspicious_patterns :: "string list"
  phishing_check_risk_level :: string
  malware_check_suspicious_patterns :: "string list"
  malware_check_risk_level :: string
  csrf_check_issues :: "string list"
  ct_check_ct_status :: string

text \<open>\<^verbatim>\<open>String.prototype.includes\<close>: the argument occurs somewhere in the string.\<close>

fun js_includes :: "'a list \<Rightarrow> 'a list \<Rightarrow> bool" where
  "js_includes [] sub = (sub = [])"
| "js_includes (c # cs) sub =
     (case strip_prefix sub (c # cs) of Some r \<Rightarrow> True | None \<Rightarrow> js_includes cs sub)"

text \<open>
  The object literal passed to \<^verbatim>\<open>setAnalysisResult\<close>. \<open>toLowerCase\<close> is the platform's
  \<^verbatim>\<open>String.prototype.toLowerCase\<close>, a parameter.
\<close>

definition transform ::
  "(string \<Rightarrow> string) \<Rightarrow> 'n api_response \<Rightarrow> ('n, security_issue) analysis_result" where
  "transform toLowerCase data =
     [(''ssl'',
         \<lparr>score = overall_score data,
          issues = map (\<lambda>(header, v).
              \<lparr>message = header @ '': '' @ v,
               severity = (if v = ''Missing'' then High
                           else if js_includes v ''Invalid'' then Medium else Info)\<rparr>)
            (security_headers data)\<rparr>),
      (''contentSecurity'',
         \<lparr>score = overall_score data,
          issues = map (\<lambda>rec.
              \<lparr>message = rec,
               severity = (if js_includes (toLowerCase rec) ''critical'' then High
                           else if js_includes (toLowerCase rec) ''implement'' then Medium else Low)\<rparr>)
            (filter (\<lambda>rec. js_includes rec ''CSP'' \<or> js_includes rec ''security'') (recommendations data))\<rparr>),
      (''vulnerabilities'',
         \<lparr>score = overall_score data,
          issues = map (\<lambda>issue. \<lparr>message = issue, severity = High\<rparr>) (xss_check_issues data)\<rparr>),
      (''phishing'',
         \<lparr>score = overall_score data,
          issues = map (\<lambda>pattern.
              \<lparr>message = pattern,
               severity = (if phishing_check_risk_level data = ''high'' then High
                           else if phishing_check_risk_level data = ''medium'' then Medium else Low)\<rparr>)
            (phishing_check_suspicious_patterns data)\<rparr>),
      (''malware'',
         \<lparr>score = overall_score data,
          issues = map (\<lambda>pattern.
              \<lparr>message = pattern,
               severity = (if malware_check_risk_level data = ''high'' then High
                           else if malware_check_risk_level data = ''medium'' then Medium else Low)\<rparr>)
            (malware_check_suspicious_patterns data)\<rparr>),
      (''webAttacks'',
         \<lparr>score = overall_score data,
          issues = map (\<lambda>issue.
              \<lparr>message = issue,
               severity = (if js_includes issue ''No CSRF protection'' then High else Medium)\<rparr>)
            (csrf_check_issues data)\<rparr>),
      (''certificateTransparency'',
         \<lparr>score = overall_score data,
          issues = [\<lparr>message = ct_check_ct_status data,
                     severity = (if js_includes (ct_check_ct_status data) ''Not found'' then High else Info)\<rparr>]\<rparr>),
      (''libraries'',
         \<lparr>score = overall_score data,
          issues = map (\<lambda>rec.
              \<lparr>message = rec,
               severity = (if js_includes (toLowerCase rec) ''critical'' then High else Medium)\<rparr>)
            (filter (\<lambda>rec. js_includes rec ''upgrade'' \<or> js_includes rec ''implement'') (recommendations data))\<rparr>)]"

text \<open>
  The state of \<^verbatim>\<open>Home\<close> here has the URL field too. What \<^verbatim>\<open>fetch\<close> and
  \<^verbatim>\<open>response.json()\<close> answer: the request fails with an error, or a response comes with
  its status and a body that parses or not. What a \<^verbatim>\<open>catch\<close> receives is an \<^verbatim>\<open>Error\<close>
  with its message, or another value.
\<close>

record 'r home_url = "'r home" +
  url :: js_string

datatype 'n response_body = BadJson string | Json "'n api_response"

datatype 'n fetch_outcome = NetworkError string | Response nat "'n response_body"

datatype thrown = Error string | NonError

text \<open>\<^verbatim>\<open>response.ok\<close>: the status is in the range 200 to 299.\<close>

definition ok :: "nat \<Rightarrow> bool" where
  "ok status \<longleftrightarrow> 200 \<le> status \<and> status \<le> 299"

definition handleSubmit_try ::
  "(string \<Rightarrow> string) \<Rightarrow> js_string \<Rightarrow> 'n fetch_outcome \<Rightarrow>
   ('n, security_issue) analysis_result home_url \<times> page_effect list \<Rightarrow>
   thrown option \<times> ('n, security_issue) analysis_result home_url \<times> page_effect list" where
  "handleSubmit_try toLowerCase url_snap outcome p =
     (let p1 = (fst p, snd p @ [Fetch url_snap])
      in case outcome of
           NetworkError msg \<Rightarrow> (Some (Error msg), p1)
         | Response status body \<Rightarrow>
             if \<not> ok status then
               (Some (Error
                  (if status = 404 then ''Website not found''
                   else if status = 429 then ''Too many requests, please try again later''
                   else if status = 400 then ''Invalid URL format''
                   else ''Failed to analyze website'')), p1)
             else
               (case body of
                  BadJson msg \<Rightarrow> (Some (Error msg), p1)
                | Json data \<Rightarrow>
                    (None,
                     (fst p1)\<lparr>analysisResult := Some (transform toLowerCase data)\<rparr>,
                     snd p1 @ [ToastSuccess ''Analysis completed''
                                 ''Security check completed successfully.''])))"

definition handleSubmit ::
  "(string \<Rightarrow> string) \<Rightarrow> js_string \<Rightarrow> form_event \<Rightarrow> 'n fetch_outcome \<Rightarrow>
   ('n, security_issue) analysis_result home_url \<Rightarrow>
   ('n, security_issue) analysis_result home_url \<times> page_effect list" where
  "handleSubmit toLowerCase url_snap e outcome s =
     (let p0 = (s\<lparr>isLoading := True, analysisResult := None\<rparr>,
                [PreventDefault e,
                 ToastLoading ''Analyzing website security...''
                   ''Please wait while we check various security parameters.'']);
          (caught, p1) = handleSubmit_try toLowerCase url_snap outcome p0;
          p2 = (case caught of
                  None \<Rightarrow> p1
                | Some error \<Rightarrow>
                    (let errorMessage = (case error of
                                           Error msg \<Rightarrow> msg
                                         | NonError \<Rightarrow> ''An unexpected error occurred'')
                     in (fst p1,
                         snd p1 @
                           [ToastError ''Analysis failed'' errorMessage
                              \<lparr>label = ''Try Again'', onClick = HandleSubmit url_snap e\<rparr> 5000,
                            ConsoleErr ''Error analyzing website:''])))
      in ((fst p2)\<lparr>isLoading := False\<rparr>, snd p2))"

text \<open>A click on the button of a toast action runs its closure.\<close>

fun invoke ::
  "(string \<Rightarrow> string) \<Rightarrow> callback \<Rightarrow> 'n fetch_outcome \<Rightarrow>
   ('n, security_issue) analysis_result home_url \<Rightarrow>
   ('n, security_issue) analysis_result home_url \<times> page_effect list" where
  "invoke toLowerCase (HandleSubmit url_snap e) outcome s =
     handleSubmit toLowerCase url_snap e outcome s"

text \<open>\<^verbatim>\<open>handleUrlDetected\<close>, the \<^verbatim>\<open>onUrlDetected\<close> the page gives the scanner.\<close>

definition handleUrlDetected :: "js_string \<Rightarrow> 'r home_url \<Rightarrow> 'r home_url" where
  "handleUrlDetected detectedUrl s = s\<lparr>url := detectedUrl\<rparr>"


section \<open>What the specification says, as predicates\<close>

text \<open>
  A text matches the URL pattern when it is \<^verbatim>\<open>http\<close> or \<^verbatim>\<open>https\<close>, then \<^verbatim>\<open>://\<close>, then one
  or more code units that are not white space. A text contains a URL when one of its
  substrings matches. The first match of a text is the match that starts leftmost and,
  from there, runs as far as the pattern allows: up to the end of the text or to
  a white space.
\<close>

definition url_pattern :: "js_string \<Rightarrow> bool" where
  "url_pattern m \<longleftrightarrow>
     (\<exists>body. (m = http @ colon_slashes @ body \<or> m = http @ [letter_s] @ colon_slashes @ body) \<and>
        body \<noteq> [] \<and> (\<forall>c\<in>set body. \<not> is_space c))"

definition contains_url :: "js_string \<Rightarrow> bool" where
  "contains_url t \<longleftrightarrow> (\<exists>pre m post. t = pre @ m @ post \<and> url_pattern m)"

definition first_url_match :: "js_string \<Rightarrow> js_string \<Rightarrow> bool" where
  "first_url_match t m \<longleftrightarrow>
     (\<exists>pre post. t = pre @ m @ post \<and> url_pattern m \<and> (post = [] \<or> is_space (hd post)) \<and>
        (\<forall>pre' m' post'. t = pre' @ m' @ post' \<and> url_pattern m' \<longrightarrow> length pre \<le> length pre'))"

text \<open>The URLs a handler has passed to \<^verbatim>\<open>onUrlDetected\<close>, in order.\<close>

fun reported :: "effect list \<Rightarrow> js_string list" where
  "reported [] = []"
| "reported (OnUrlDetected u # es) = u # reported es"
| "reported (e # es) = reported es"

section \<open>Sample inputs\<close>

text \<open>
  A store with no stream and one with a single stream of one live track; the widget
  idle, with a live camera, and holding a captured frame; a video frame that can be
  captured; the text \<^verbatim>\<open>go http://a.b ok\<close> and the URL in it.
\<close>

definition no_devices :: devices where
  "no_devices = (\<lambda>h. [])"

definition one_camera :: devices where
  "one_camera = no_devices(0 := [Live])"

definition idle_session :: camera_session where
  "idle_session = \<lparr>isOpen = False, isProcessing = False, stream = None, capturedImage = None,
     isCameraReady = False\<rparr>"

definition live_session :: camera_session where
  "live_session = \<lparr>isOpen = True, isProcessing = False, stream = Some 0, capturedImage = None,
     isCameraReady = True\<rparr>"

definition jpeg_data :: string where
  "jpeg_data = ''data:image/jpeg;base64,'' @ replicate 200 (CHR ''A'')"

definition captured_session :: camera_session where
  "captured_session = \<lparr>isOpen = True, isProcessing = False, stream = None,
     capturedImage = Some jpeg_data, isCameraReady = False\<rparr>"

definition good_frame :: video_env where
  "good_frame = \<lparr>videoPresent = True, ctxAvailable = True, readyState = 4, imageData = jpeg_data\<rparr>"

definition sample_text :: js_string where
  "sample_text = [103, 111, 32, 104, 116, 116, 112, 58, 47, 47, 97, 46, 98, 32, 111, 107]"

definition sample_url :: js_string where
  "sample_url = [104, 116, 116, 112, 58, 47, 47, 97, 46, 98]"

text \<open>
  The URL \<^verbatim>\<open>https://example.com\<close>; the two pages before a submission; a response body;
  and \<^verbatim>\<open>toLowerCase\<close> as it acts on the letters A to Z.
\<close>

definition example_url :: js_string where
  "example_url = [104, 116, 116, 112, 115, 58, 47, 47, 101, 120, 97, 109, 112, 108, 101, 46, 99, 111, 109]"

definition fresh_page :: "(int, string) analysis_result home" where
  "fresh_page = \<lparr>analysisResult = None, isLoading = False\<rparr>"

definition fresh_home :: "(int, security_issue) analysis_result home_url" where
  "fresh_home = \<lparr>analysisResult = None, isLoading = False, url = example_url\<rparr>"

definition sample_response :: "int api_response" where
  "sample_response =
     \<lparr>overall_score = 72,
      security_headers = [(''X-Frame-Options'', ''Missing''), (''Strict-Transport-Security'', ''Present'')],
      recommendations = [''Implement CSP header'', ''Please upgrade jQuery''],
      xss_check_issues = [''Inline script found''],
      phishing_check_suspicious_patterns = [],
      phishing_check_risk_level = ''low'',
      malware_check_suspicious_patterns = [''eval(''],
      malware_check_risk_level = ''medium'',
      csrf_check_issues = [''No CSRF protection on form''],
      ct_check_ct_status = ''Not found in CT logs''\<rparr>"

definition ascii_lower :: "string \<Rightarrow> string" where
  "ascii_lower = map (\<lambda>c. if 65 \<le> (of_char c :: nat) \<and> (of_char c :: nat) \<le> 90
                            then char_of (of_char c + 32 :: nat) else c)"

section \<open>The pattern matcher finds the first match\<close>

lemma takeWhile_run:
  "body \<noteq> [] \<Longrightarrow> \<forall>c\<in>set body. P c \<Longrightarrow> post = [] \<or> \<not> P (hd post) \<Longrightarrow>
   takeWhile P (body @ post) = body"
  by (cases post) (auto simp: takeWhile_append2)

lemma match_tail_Some:
  "match_tail t = Some m \<longleftrightarrow>
     (\<exists>body post. t = colon_slashes @ body @ post \<and> m = colon_slashes @ body \<and> body \<noteq> [] \<and>
        (\<forall>c\<in>set body. \<not> is_space c) \<and> (post = [] \<or> is_space (hd post)))"
proof
  assume "match_tail t = Some m"
  then obtain b where b: "t = colon_slashes @ b" "takeWhile (\<lambda>c. \<not> is_space c) b \<noteq> []"
    "m = colon_slashes @ takeWhile (\<lambda>c. \<not> is_space c) b"
    by (auto simp: match_tail_def Let_def strip_prefix_Some split: option.splits if_splits)
  let ?body = "takeWhile (\<lambda>c. \<not> is_space c) b" and ?post = "dropWhile (\<lambda>c. \<not> is_space c) b"
  have "t = colon_slashes @ ?body @ ?post" using b by simp
  moreover have "\<forall>c\<in>set ?body. \<not> is_space c" by (auto dest: set_takeWhileD)
  moreover have "?post = [] \<or> is_space (hd ?post)" using hd_dropWhile[of "\<lambda>c. \<not> is_space c" b] by auto
  ultimately show "\<exists>body post. t = colon_slashes @ body @ post \<and> m = colon_slashes @ body \<and> body \<noteq> [] \<and>
        (\<forall>c\<in>set body. \<not> is_space c) \<and> (post = [] \<or> is_space (hd post))"
    using b by blast
next
  assume "\<exists>body post. t = colon_slashes @ body @ post \<and> m = colon_slashes @ body \<and> body \<noteq> [] \<and>
        (\<forall>c\<in>set body. \<not> is_space c) \<and> (post = [] \<or> is_space (hd post))"
  then obtain body post where h: "t = colon_slashes @ body @ post" "m = colon_slashes @ body" "body \<noteq> []"
        "\<forall>c\<in>set body. \<not> is_space c" "post = [] \<or> is_space (hd post)" by blast
  have "takeWhile (\<lambda>c. \<not> is_space c) (body @ post) = body"
    using h by (intro takeWhile_run) auto
  moreover have "strip_prefix colon_slashes t = Some (body @ post)"
    using h by (simp add: strip_prefix_Some)
  ultimately show "match_tail t = Some m" using h by (simp add: match_tail_def)
qed


lemma strip_prefix_append: "strip_prefix p (p @ r) = Some r"
  by (simp add: strip_prefix_Some)

lemma match_here_sound:
  assumes "match_here t = Some m"
  shows "\<exists>post. t = m @ post \<and> url_pattern m \<and> (post = [] \<or> is_space (hd post))"
proof -
  from assms obtain r where r: "t = http @ r"
    by (auto simp: match_here_def strip_prefix_Some split: option.splits)
  from assms r consider
      (secure) r' m0 where "r = letter_s # r'" "match_tail r' = Some m0" "m = http @ [letter_s] @ m0"
    | (plain) m0 where "match_tail r = Some m0" "m = http @ m0"
    by (auto simp: match_here_def strip_prefix_append split: option.splits list.splits if_splits)
  then show ?thesis
  proof cases
    case secure
    from secure(2) obtain body post where
      "r' = colon_slashes @ body @ post" "m0 = colon_slashes @ body" "body \<noteq> []"
      "\<forall>c\<in>set body. \<not> is_space c" "post = [] \<or> is_space (hd post)"
      unfolding match_tail_Some by blast
    with secure r show ?thesis
      by (auto simp: url_pattern_def)
  next
    case plain
    from plain(1) obtain body post where
      "r = colon_slashes @ body @ post" "m0 = colon_slashes @ body" "body \<noteq> []"
      "\<forall>c\<in>set body. \<not> is_space c" "post = [] \<or> is_space (hd post)"
      unfolding match_tail_Some by blast
    with plain r show ?thesis
      by (auto simp: url_pattern_def)
  qed
qed

lemma match_here_complete:
  assumes "url_pattern m" "post = [] \<or> is_space (hd post)"
  shows "match_here (m @ post) = Some m"
proof -
  from assms(1) obtain body where body: "body \<noteq> []" "\<forall>c\<in>set body. \<not> is_space c"
    and m: "m = http @ colon_slashes @ body \<or> m = http @ [letter_s] @ colon_slashes @ body"
    by (auto simp: url_pattern_def)
  have tail: "match_tail (colon_slashes @ body @ post) = Some (colon_slashes @ body)"
    unfolding match_tail_Some using body assms(2) by blast
  from m show ?thesis
  proof
    assume "m = http @ colon_slashes @ body"
    then have "match_here (m @ post) =
        (case match_tail (colon_slashes @ body @ post) of Some m0 \<Rightarrow> Some (http @ m0) | None \<Rightarrow> None)"
      by (simp add: match_here_def strip_prefix_append) (simp add: colon_slashes_def letter_s_def)
    then show ?thesis using tail \<open>m = http @ colon_slashes @ body\<close> by simp
  next
    assume "m = http @ [letter_s] @ colon_slashes @ body"
    then show ?thesis using tail
      by (simp add: match_here_def strip_prefix_append)
  qed
qed

lemma url_pattern_extend:
  assumes "url_pattern m"
  shows "\<exists>m' post'. m @ post = m' @ post' \<and> url_pattern m' \<and> (post' = [] \<or> is_space (hd post'))"
proof -
  let ?P = "\<lambda>c. \<not> is_space c"
  have "m @ post = (m @ takeWhile ?P post) @ dropWhile ?P post" by simp
  moreover have "url_pattern (m @ takeWhile ?P post)"
    using assms unfolding url_pattern_def
    by (elim exE conjE disjE) (rule_tac x = "body @ takeWhile ?P post" in exI, auto dest: set_takeWhileD)+
  moreover have "dropWhile ?P post = [] \<or> is_space (hd (dropWhile ?P post))"
    using hd_dropWhile[of ?P post] by auto
  ultimately show ?thesis by blast
qed

lemma match_here_None:
  assumes "match_here t = None" "t = pre @ m @ post" "url_pattern m"
  shows "pre \<noteq> []"
proof
  assume "pre = []"
  with assms(2) have t: "t = m @ post" by simp
  from url_pattern_extend[OF assms(3), of post] obtain m' post' where
    "m @ post = m' @ post'" "url_pattern m'" "post' = [] \<or> is_space (hd post')" by blast
  with t have "match_here t = Some m'" using match_here_complete by simp
  with assms(1) show False by simp
qed

lemma url_pattern_nonempty: "url_pattern m \<Longrightarrow> m \<noteq> []"
  by (auto simp: url_pattern_def http_def)

lemma match_all_first:
  "(match_all t = [] \<longleftrightarrow> \<not> contains_url t) \<and> (\<forall>m ms. match_all t = m # ms \<longrightarrow> first_url_match t m)"
proof (induction t)
  case Nil
  then show ?case by (auto simp: contains_url_def dest: url_pattern_nonempty)
next
  case (Cons c cs)
  show ?case
  proof (cases "match_here (c # cs)")
    case None
    then have eq: "match_all (c # cs) = match_all cs" by simp
    have shift: "\<exists>pre0. pre = c # pre0 \<and> cs = pre0 @ m @ post"
      if "c # cs = pre @ m @ post" "url_pattern m" for pre m post
    proof -
      from match_here_None[OF None that] obtain p pre0 where "pre = p # pre0" by (cases pre) auto
      with that(1) show ?thesis by simp
    qed
    have c1: "contains_url (c # cs) \<longleftrightarrow> contains_url cs"
    proof
      assume "contains_url (c # cs)"
      then obtain pre m post where h: "c # cs = pre @ m @ post" "url_pattern m"
        by (auto simp: contains_url_def)
      from shift[OF h] h(2) show "contains_url cs" by (auto simp: contains_url_def)
    next
      assume "contains_url cs"
      then obtain pre m post where "cs = pre @ m @ post" "url_pattern m"
        by (auto simp: contains_url_def)
      then have "c # cs = (c # pre) @ m @ post" by simp
      with \<open>url_pattern m\<close> show "contains_url (c # cs)" unfolding contains_url_def by blast
    qed
    have c2: "first_url_match (c # cs) m" if "first_url_match cs m" for m
    proof -
      from that obtain pre post where h: "cs = pre @ m @ post" "url_pattern m"
        "post = [] \<or> is_space (hd post)"
        "\<forall>pre' m' post'. cs = pre' @ m' @ post' \<and> url_pattern m' \<longrightarrow> length pre \<le> length pre'"
        unfolding first_url_match_def by blast
      have "length (c # pre) \<le> length pre'" if "c # cs = pre' @ m' @ post'" "url_pattern m'" for pre' m' post'
      proof -
        from shift[OF that] obtain pre0 where "pre' = c # pre0" "cs = pre0 @ m' @ post'" by blast
        with h(4) that(2) show ?thesis by auto
      qed
      moreover have "c # cs = (c # pre) @ m @ post" using h(1) by simp
      ultimately show ?thesis unfolding first_url_match_def using h(2,3) by blast
    qed
    from eq c1 c2 Cons.IH show ?thesis by auto
  next
    case (Some m)
    then have eq: "match_all (c # cs) = m # match_all (drop (length m) (c # cs))" by simp
    from match_here_sound[OF Some] obtain post where h: "c # cs = m @ post" "url_pattern m"
      "post = [] \<or> is_space (hd post)" by blast
    then have "c # cs = [] @ m @ post" by simp
    then have "contains_url (c # cs)" "first_url_match (c # cs) m"
      unfolding contains_url_def first_url_match_def using h(2,3) by (blast, fastforce)
    with eq show ?thesis by auto
  qed
qed


lemma first_url_match_head:
  "first_url_match t m \<Longrightarrow> \<exists>ms. match_all t = m # ms"
proof (induction t)
  case Nil
  then show ?case by (auto simp: first_url_match_def dest: url_pattern_nonempty)
next
  case (Cons c cs)
  from Cons.prems obtain pre post where h: "c # cs = pre @ m @ post" "url_pattern m"
    "post = [] \<or> is_space (hd post)"
    "\<forall>pre' m' post'. c # cs = pre' @ m' @ post' \<and> url_pattern m' \<longrightarrow> length pre \<le> length pre'"
    unfolding first_url_match_def by blast
  show ?case
  proof (cases pre)
    case Nil
    with h have "match_here (c # cs) = Some m" using match_here_complete by simp
    then show ?thesis by simp
  next
    case (Cons p pre0)
    with h(1) have cs: "cs = pre0 @ m @ post" by simp
    have none: "match_here (c # cs) = None"
    proof (rule ccontr)
      assume "match_here (c # cs) \<noteq> None"
      then obtain m' where "match_here (c # cs) = Some m'" by auto
      from match_here_sound[OF this] obtain post' where "c # cs = [] @ m' @ post'" "url_pattern m'"
        by auto
      with h(4) have "length pre \<le> length ([]::nat list)" by blast
      with Cons show False by simp
    qed
    have "length pre0 \<le> length pre'" if "cs = pre' @ m' @ post'" "url_pattern m'" for pre' m' post'
    proof -
      from that have "c # cs = (c # pre') @ m' @ post'" by simp
      with h(4) that(2) have "length pre \<le> length (c # pre')" by blast
      with Cons show ?thesis by simp
    qed
    with cs h(2,3) have "first_url_match cs m" unfolding first_url_match_def by blast
    from Cons.IH[OF this] none show ?thesis by simp
  qed
qed

lemma first_url_match_unique:
  "first_url_match t m \<Longrightarrow> first_url_match t m' \<Longrightarrow> m' = m"
  by (auto dest!: first_url_match_head)

lemma js_match_contains:
  "contains_url t \<Longrightarrow> \<exists>m ms. js_match t = Some (m # ms) \<and> first_url_match t m"
  using match_all_first[of t] by (cases "match_all t") (auto simp: js_match_def)

lemma js_match_none: "\<not> contains_url t \<Longrightarrow> js_match t = None"
  using match_all_first[of t] by (auto simp: js_match_def)

section \<open>The handlers, unfolded\<close>

lemmas setters = Let_def setIsOpen_def setIsProcessing_def setStream_def setCapturedImage_def
  setIsCameraReady_def emit_def stopTracks_def start_def

lemmas handlers = confirmImage_def confirmImage_try_def handleClose_def stopCamera_def
  captureImage_def captureImage_try_def startCamera_def startCamera_begin_def
  startCamera_resume_def handleOpen_def handleOpen_pending_def retakePhoto_def
  retakePhoto_pending_def handleVideoReady_def

lemmas samples = no_devices_def one_camera_def idle_session_def live_session_def jpeg_data_def
  captured_session_def good_frame_def sample_text_def sample_url_def

lemma sample_match: "js_match sample_text = Some [sample_url]"
  by (simp add: js_match_def sample_text_def sample_url_def match_here_def match_tail_def
      http_def colon_slashes_def letter_s_def is_space_def)

lemma sample_contains: "contains_url sample_text"
proof -
  have "sample_text = [103, 111, 32] @ sample_url @ [32, 111, 107]"
    by (simp add: sample_text_def sample_url_def)
  moreover have "url_pattern sample_url"
    unfolding url_pattern_def
    by (rule exI[of _ "[97, 46, 98]"])
      (simp add: sample_url_def http_def colon_slashes_def is_space_def)
  ultimately show ?thesis unfolding contains_url_def by blast
qed

section \<open>The confirm step\<close>

text \<open>
  C1. When a captured image is held and the recognised text contains a substring matching
  the URL pattern, \<open>confirmImage\<close> passes exactly one URL to \<^verbatim>\<open>onUrlDetected\<close>, and that URL
  is the first match of the text: the leftmost match, extended to the next white space or
  the end of the text, with nothing added before or after; no other text is the first
  match. Afterwards the dialog is closed, the state holds no stream, and every track of the
  stream the widget held is ended.
\<close>

theorem confirm_reports_first_url:
  assumes "capturedImage s = Some img" "img \<noteq> []" "contains_url text"
  shows "\<exists>url. first_url_match text url \<and> (\<forall>m. first_url_match text m \<longrightarrow> m = url) \<and>
           reported (effects (step (Confirm (Recognized text)) w s)) = [url] \<and>
           \<not> isOpen (nxt (step (Confirm (Recognized text)) w s)) \<and>
           stream (nxt (step (Confirm (Recognized text)) w s)) = None \<and>
           (\<forall>h. stream s = Some h \<longrightarrow> set (dev (step (Confirm (Recognized text)) w s) h) \<subseteq> {Ended})"
proof -
  from js_match_contains[OF assms(3)] obtain url ms where
    m: "js_match text = Some (url # ms)" and f: "first_url_match text url" by blast
  have u: "\<forall>m. first_url_match text m \<longrightarrow> m = url"
    using f first_url_match_unique by blast
  have "reported (effects (step (Confirm (Recognized text)) w s)) = [url]"
    using assms(1,2) m
    by (simp add: confirmImage_def confirmImage_try_def handleClose_def stopCamera_def setters
        split: option.splits)
  moreover have "\<not> isOpen (nxt (step (Confirm (Recognized text)) w s))"
    using assms(1,2) m
    by (simp add: confirmImage_def confirmImage_try_def handleClose_def stopCamera_def setters
        split: option.splits)
  moreover have "stream (nxt (step (Confirm (Recognized text)) w s)) = None"
    using assms(1,2) m
    by (simp add: confirmImage_def confirmImage_try_def handleClose_def stopCamera_def setters
        split: option.splits)
  moreover have "\<forall>h. stream s = Some h \<longrightarrow> set (dev (step (Confirm (Recognized text)) w s) h) \<subseteq> {Ended}"
    using assms(1,2) m
    by (auto simp add: confirmImage_def confirmImage_try_def handleClose_def stopCamera_def setters
        split: option.splits)
  ultimately show ?thesis using f u by blast
qed

theorem confirm_reports_first_url_witness:
  "contains_url sample_text \<and> first_url_match sample_text sample_url \<and>
   reported (effects (step (Confirm (Recognized sample_text)) one_camera
     (captured_session\<lparr>stream := Some 0\<rparr>))) = [sample_url] \<and>
   \<not> isOpen (nxt (step (Confirm (Recognized sample_text)) one_camera
     (captured_session\<lparr>stream := Some 0\<rparr>))) \<and>
   stream (nxt (step (Confirm (Recognized sample_text)) one_camera
     (captured_session\<lparr>stream := Some 0\<rparr>))) = None \<and>
   dev (step (Confirm (Recognized sample_text)) one_camera
     (captured_session\<lparr>stream := Some 0\<rparr>)) 0 = [Ended]"
proof -
  let ?s = "captured_session\<lparr>stream := Some 0\<rparr>"
  let ?r = "step (Confirm (Recognized sample_text)) one_camera ?s"
  have img: "capturedImage ?s = Some jpeg_data" "jpeg_data \<noteq> []"
    by (simp_all add: captured_session_def jpeg_data_def)
  from confirm_reports_first_url[OF img sample_contains, of one_camera]
  obtain u where u: "first_url_match sample_text u" "reported (effects ?r) = [u]"
    "\<not> isOpen (nxt ?r)" "stream (nxt ?r) = None" by blast
  have e: "reported (effects ?r) = [sample_url]"
    using img sample_match by (simp add: handlers setters)
  have d: "dev ?r 0 = [Ended]"
    using img sample_match by (simp add: handlers setters one_camera_def no_devices_def)
  from u e have "u = sample_url" by simp
  with u d e sample_contains show ?thesis by simp
qed


text \<open>
  C4. When a captured image is held and the recognised text contains no substring matching
  the URL pattern, \<open>confirmImage\<close> raises the alert that no URL was detected and reports no
  URL; the next state differs from the current one only in the processing flag, which is
  false, and the store is untouched. So the captured image is kept, an absent stream stays
  absent and an open dialog stays open.
\<close>

theorem confirm_no_url:
  assumes "capturedImage s = Some img" "img \<noteq> []" "\<not> contains_url text"
  shows "effects (step (Confirm (Recognized text)) w s) =
           [WorkerRecognize img, Alert ''No URL detected in the image. Please try again.''] \<and>
         nxt (step (Confirm (Recognized text)) w s) = s\<lparr>isProcessing := False\<rparr> \<and>
         dev (step (Confirm (Recognized text)) w s) = w"
  using assms(1,2) js_match_none[OF assms(3)]
  by (simp add: confirmImage_def confirmImage_try_def setters)

theorem confirm_no_url_witness:
  "\<not> contains_url [] \<and>
   effects (step (Confirm (Recognized [])) no_devices captured_session) =
     [WorkerRecognize jpeg_data, Alert ''No URL detected in the image. Please try again.''] \<and>
   capturedImage (nxt (step (Confirm (Recognized [])) no_devices captured_session)) = Some jpeg_data \<and>
   stream (nxt (step (Confirm (Recognized [])) no_devices captured_session)) = None \<and>
   isOpen (nxt (step (Confirm (Recognized [])) no_devices captured_session))"
proof -
  have n: "\<not> contains_url []"
    by (auto simp: contains_url_def dest: url_pattern_nonempty)
  have img: "capturedImage captured_session = Some jpeg_data" "jpeg_data \<noteq> []"
    by (simp_all add: captured_session_def jpeg_data_def)
  from confirm_no_url[OF img n, of no_devices] n show ?thesis
    by (simp add: captured_session_def)
qed


text \<open>
  C10. When no captured image is held, \<open>confirmImage\<close> does nothing, whatever the engine
  would answer: no effect (no recognition call, no URL reported, no alert), the same
  state and the same store.
\<close>

theorem confirm_without_image:
  assumes "capturedImage s = None"
  shows "step (Confirm ocr) w s = \<lparr>dev = w, nxt = s, effects = []\<rparr>"
  using assms by (simp add: confirmImage_def start_def)


theorem confirm_without_image_witness:
  "capturedImage live_session = None \<and>
   step (Confirm (Recognized sample_text)) one_camera live_session =
     \<lparr>dev = one_camera, nxt = live_session, effects = []\<rparr>"
proof -
  have n: "capturedImage live_session = None" by (simp add: live_session_def)
  from confirm_without_image[OF n] n show ?thesis by simp
qed

section \<open>Closing the scanner\<close>

text \<open>
  In every state, \<open>handleClose\<close> leaves no stream in the state, no captured image, the
  readiness flag false and the dialog closed, and it ends every track of the stream the
  state held; the other streams are not touched.
\<close>

lemma handleClose_releases_held_stream:
  "nxt (step Close w s) =
     s\<lparr>isOpen := False, stream := None, capturedImage := None, isCameraReady := False\<rparr> \<and>
   dev (step Close w s) h = (if stream s = Some h then map (\<lambda>_. Ended) (w h) else w h) \<and>
   effects (step Close w s) = []"
  by (cases "stream s") (simp_all add: handlers setters)

lemma open_uninterrupted:
  "nxt (run [OpenPending, CameraAnswer outcome] w s) = nxt (step (Open outcome) w s) \<and>
   dev (run [OpenPending, CameraAnswer outcome] w s) = dev (step (Open outcome) w s) \<and>
   effects (run [OpenPending, CameraAnswer outcome] w s) = effects (step (Open outcome) w s)"
  by (cases outcome) (simp_all add: handlers setters)

text \<open>
  C2. \<open>handleClose\<close> releases the stream the state holds when it runs, but not every way
  out of the scanner leaves the camera released. When the scanner is opened from a state
  that holds no stream and is closed while the camera request is still pending,
  \<open>handleClose\<close> finds no stream and stops nothing; when the request is then granted,
  the rest of \<open>startCamera\<close> stores the stream. The scanner ends closed and holding that
  stream, and the store is as it was at the start: every track of the granted stream that
  was live is still live, and nothing will stop it.
\<close>

theorem close_while_opening_leaks:
  assumes "stream s = None"
  shows "stream (nxt (run [OpenPending, Close] w s)) = None \<and>
         \<not> isOpen (nxt (run [OpenPending, Close, CameraAnswer (Granted h)] w s)) \<and>
         stream (nxt (run [OpenPending, Close, CameraAnswer (Granted h)] w s)) = Some h \<and>
         dev (run [OpenPending, Close, CameraAnswer (Granted h)] w s) = w"
  using assms by (simp add: handlers setters)

theorem close_while_opening_leaks_witness:
  "stream idle_session = None \<and>
   \<not> isOpen (nxt (run [OpenPending, Close, CameraAnswer (Granted 0)] one_camera idle_session)) \<and>
   stream (nxt (run [OpenPending, Close, CameraAnswer (Granted 0)] one_camera idle_session)) = Some 0 \<and>
   dev (run [OpenPending, Close, CameraAnswer (Granted 0)] one_camera idle_session) 0 = [Live]"
proof -
  have n: "stream idle_session = None" by (simp add: idle_session_def)
  have d: "one_camera 0 = [Live]" by (simp add: samples)
  from close_while_opening_leaks[OF n, of one_camera 0] n d show ?thesis by simp
qed

section \<open>Capturing a frame\<close>

text \<open>
  C3. A capture succeeds when the video element is there, the camera is ready, the canvas
  gives a context, the video has enough data and the encoded image is longer than 100
  characters. The live stream is then stopped and released: every track of the held stream
  is ended and the state holds no stream. But the next state holds no captured image:
  \<open>captureImage\<close> sets the image and then calls \<open>stopCamera\<close>, which sets it to
  \<^verbatim>\<open>null\<close>, and the later call wins. The widget does not reach the state in which the
  image is shown for confirmation.
\<close>

theorem capture_success_discards_image:
  assumes "videoPresent env" "isCameraReady s" "ctxAvailable env"
    "readyState env = HAVE_ENOUGH_DATA" "100 < length (imageData env)"
  shows "capturedImage (nxt (step (Capture env) w s)) = None \<and>
         stream (nxt (step (Capture env) w s)) = None \<and>
         (\<forall>h. stream s = Some h \<longrightarrow> dev (step (Capture env) w s) h = map (\<lambda>_. Ended) (w h)) \<and>
         effects (step (Capture env) w s) = []"
  using assms by (cases "stream s") (auto simp add: handlers setters)

theorem capture_success_discards_image_witness:
  "videoPresent good_frame \<and> isCameraReady live_session \<and> ctxAvailable good_frame \<and>
   readyState good_frame = HAVE_ENOUGH_DATA \<and> 100 < length (imageData good_frame) \<and>
   capturedImage (nxt (step (Capture good_frame) one_camera live_session)) = None \<and>
   stream (nxt (step (Capture good_frame) one_camera live_session)) = None \<and>
   dev (step (Capture good_frame) one_camera live_session) 0 = [Ended]"
proof -
  have h: "videoPresent good_frame" "isCameraReady live_session" "ctxAvailable good_frame"
    "readyState good_frame = HAVE_ENOUGH_DATA" "100 < length (imageData good_frame)"
    by (simp_all add: samples HAVE_ENOUGH_DATA_def)
  have s: "stream live_session = Some 0" "one_camera 0 = [Live]"
    by (simp_all add: samples)
  from capture_success_discards_image[OF h, of one_camera] h s show ?thesis
    by simp
qed

text \<open>
  C5, as the claim states it, fails when the canvas gives no 2D context: with the camera
  ready and the video short of data, \<open>captureImage\<close> returns at \<^verbatim>\<open>if (!ctx) return\<close>,
  before it looks at the video, and raises no error and no alert.
\<close>

theorem capture_without_context_is_silent:
  "isCameraReady live_session \<and>
   readyState (good_frame\<lparr>ctxAvailable := False, readyState := 2\<rparr>) \<noteq> HAVE_ENOUGH_DATA \<and>
   effects (step (Capture (good_frame\<lparr>ctxAvailable := False, readyState := 2\<rparr>))
     one_camera live_session) = []"
  by (simp add: handlers setters samples HAVE_ENOUGH_DATA_def)

text \<open>
  C5, amended. A capture request that does not succeed is one of three cases. With the
  video element missing or the readiness flag false, it returns at once and silently: no
  effect, the same state, the same store. With the video element there and the camera
  ready but no 2D context, it returns silently too: no effect, and only the processing
  flag (false) is written. With the video element there, the camera ready and a context,
  but the video short of data or an encoded image of at most 100 characters, it logs the
  error and raises the alert \<^verbatim>\<open>Error capturing image. Please try again.\<close>, and writes
  only the captured image (\<^verbatim>\<open>null\<close>) and the processing flag (false). In none of
  the three is the camera session torn down: the store is untouched and the state keeps its
  stream, its readiness flag and its dialog flag.
\<close>

theorem capture_failure_keeps_camera:
  "(\<not> videoPresent env \<or> \<not> isCameraReady s \<longrightarrow>
      step (Capture env) w s = \<lparr>dev = w, nxt = s, effects = []\<rparr>) \<and>
   (videoPresent env \<and> isCameraReady s \<and> \<not> ctxAvailable env \<longrightarrow>
      step (Capture env) w s = \<lparr>dev = w, nxt = s\<lparr>isProcessing := False\<rparr>, effects = []\<rparr>) \<and>
   (videoPresent env \<and> isCameraReady s \<and> ctxAvailable env \<and>
      (readyState env \<noteq> HAVE_ENOUGH_DATA \<or> length (imageData env) \<le> 100) \<longrightarrow>
      effects (step (Capture env) w s) =
        [ConsoleError ''Error capturing image:'', Alert ''Error capturing image. Please try again.''] \<and>
      nxt (step (Capture env) w s) = s\<lparr>isProcessing := False, capturedImage := None\<rparr>) \<and>
   (\<not> (videoPresent env \<and> isCameraReady s \<and> ctxAvailable env \<and>
        readyState env = HAVE_ENOUGH_DATA \<and> 100 < length (imageData env)) \<longrightarrow>
      dev (step (Capture env) w s) = w \<and>
      stream (nxt (step (Capture env) w s)) = stream s \<and>
      isCameraReady (nxt (step (Capture env) w s)) = isCameraReady s \<and>
      isOpen (nxt (step (Capture env) w s)) = isOpen s)"
  by (auto simp add: handlers setters)

theorem capture_failure_keeps_camera_witness:
  "videoPresent (good_frame\<lparr>ctxAvailable := False, readyState := 2\<rparr>) \<and>
   isCameraReady live_session \<and>
   \<not> ctxAvailable (good_frame\<lparr>ctxAvailable := False, readyState := 2\<rparr>) \<and>
   step (Capture (good_frame\<lparr>ctxAvailable := False, readyState := 2\<rparr>)) one_camera live_session =
     \<lparr>dev = one_camera, nxt = live_session, effects = []\<rparr> \<and>
   videoPresent (good_frame\<lparr>readyState := 2\<rparr>) \<and>
   ctxAvailable (good_frame\<lparr>readyState := 2\<rparr>) \<and>
   readyState (good_frame\<lparr>readyState := 2\<rparr>) \<noteq> HAVE_ENOUGH_DATA \<and>
   effects (step (Capture (good_frame\<lparr>readyState := 2\<rparr>)) one_camera live_session) =
     [ConsoleError ''Error capturing image:'', Alert ''Error capturing image. Please try again.''] \<and>
   stream (nxt (step (Capture (good_frame\<lparr>readyState := 2\<rparr>)) one_camera live_session)) = Some 0 \<and>
   isCameraReady (nxt (step (Capture (good_frame\<lparr>readyState := 2\<rparr>)) one_camera live_session)) \<and>
   dev (step (Capture (good_frame\<lparr>readyState := 2\<rparr>)) one_camera live_session) 0 = [Live]"
proof -
  let ?blind = "good_frame\<lparr>ctxAvailable := False, readyState := 2\<rparr>"
  let ?early = "good_frame\<lparr>readyState := 2\<rparr>"
  have a: "videoPresent ?blind" "isCameraReady live_session" "\<not> ctxAvailable ?blind"
    "live_session\<lparr>isProcessing := False\<rparr> = live_session"
    by (simp_all add: samples)
  have b: "videoPresent ?early" "ctxAvailable ?early" "readyState ?early \<noteq> HAVE_ENOUGH_DATA"
    "stream live_session = Some 0" "one_camera 0 = [Live]"
    by (simp_all add: samples HAVE_ENOUGH_DATA_def)
  from capture_failure_keeps_camera[of ?blind live_session one_camera]
    capture_failure_keeps_camera[of ?early live_session one_camera]
    a b show ?thesis by simp
qed

section \<open>Opening the scanner\<close>

text \<open>
  C7, as the claim states it, fails on the dialog: when camera access is denied from the
  idle state, the dialog is open afterwards.
\<close>

theorem open_denied_stays_open:
  "isOpen (nxt (step (Open Denied) no_devices idle_session))"
  by (simp add: handlers setters)

text \<open>
  C7, amended. When the camera-access request is denied or unavailable, \<open>handleOpen\<close>
  logs the error and raises the alert \<^verbatim>\<open>Unable to access camera. Please make sure you have
  granted camera permissions.\<close>; the dialog is open afterwards, the readiness flag is false,
  and the stream field and the store are as they were (so no stream is held when the
  scanner was opened from the idle state).
\<close>

theorem open_denied:
  "effects (step (Open Denied) w s) =
     [ConsoleError ''Error accessing camera:'',
      Alert ''Unable to access camera. Please make sure you have granted camera permissions.''] \<and>
   nxt (step (Open Denied) w s) = s\<lparr>isOpen := True, isCameraReady := False\<rparr> \<and>
   dev (step (Open Denied) w s) = w"
  by (simp add: handlers setters)

theorem open_denied_witness:
  "effects (step (Open Denied) no_devices idle_session) =
     [ConsoleError ''Error accessing camera:'',
      Alert ''Unable to access camera. Please make sure you have granted camera permissions.''] \<and>
   isOpen (nxt (step (Open Denied) no_devices idle_session)) \<and>
   stream (nxt (step (Open Denied) no_devices idle_session)) = None \<and>
   \<not> isCameraReady (nxt (step (Open Denied) no_devices idle_session))"
  using open_denied[of no_devices idle_session] by (simp add: idle_session_def)

section \<open>Submitting a URL for analysis\<close>

text \<open>
  C8. Whatever the URL, a submission on the page with the mock backend sets the loading
  flag, leaves the result as it was and arms one timer; once the timers it has armed have
  fired, the page holds the result of the mock \<open>analyzeWebsite\<close> and is no longer
  loading: every category has the mock's score for it (85, 70 and 90) and the mock's issue
  strings, none of the issue lists empty.
\<close>

theorem mock_result:
  "isLoading (fst (page_handleSubmit e s)) \<and>
   analysisResult (fst (page_handleSubmit e s)) = analysisResult s \<and>
   snd (page_handleSubmit e s) = [PreventDefault e, SetTimeout ShowMockResult 2000] \<and>
   analysisResult (fire_timers (snd (page_handleSubmit e s)) (fst (page_handleSubmit e s))) =
     Some (analyzeWebsite u) \<and>
   \<not> isLoading (fire_timers (snd (page_handleSubmit e s)) (fst (page_handleSubmit e s))) \<and>
   map (\<lambda>(k, c). (k, score c)) (analyzeWebsite u) =
     [(''ssl'', 85), (''contentSecurity'', 70), (''vulnerabilities'', 90)] \<and>
   list_all (\<lambda>(k, c). issues c \<noteq> []) (analyzeWebsite u)"
  by (simp add: page_timeout_def page_handleSubmit_def analyzeWebsite_def)

theorem mock_result_witness:
  "analysisResult (fst (page_handleSubmit 0 fresh_page)) = None \<and>
   analysisResult (fire_timers (snd (page_handleSubmit 0 fresh_page)) (fst (page_handleSubmit 0 fresh_page))) =
     Some (analyzeWebsite example_url) \<and>
   map (\<lambda>(k, c). issues c) (analyzeWebsite example_url) =
     [[''Certificate expires in 30 days'', ''TLS 1.2 supported''],
      [''Missing CSP header'', ''X-Frame-Options not set''],
      [''No critical vulnerabilities found'', ''Server version exposed'']]"
proof -
  note t = mock_result[of 0 fresh_page example_url]
  from t have "analysisResult (fst (page_handleSubmit 0 fresh_page)) = analysisResult fresh_page"
    by (rule conjunct2[THEN conjunct1])
  then have a: "analysisResult (fst (page_handleSubmit 0 fresh_page)) = None"
    by (simp add: fresh_page_def)
  from t have b: "analysisResult (fire_timers (snd (page_handleSubmit 0 fresh_page))
      (fst (page_handleSubmit 0 fresh_page))) = Some (analyzeWebsite example_url)"
    by (rule conjunct2[THEN conjunct2, THEN conjunct2, THEN conjunct1])
  have c: "map (\<lambda>(k, c). issues c) (analyzeWebsite example_url) =
     [[''Certificate expires in 30 days'', ''TLS 1.2 supported''],
      [''Missing CSP header'', ''X-Frame-Options not set''],
      [''No critical vulnerabilities found'', ''Server version exposed'']]"
    by (simp add: analyzeWebsite_def)
  from a b c show ?thesis by blast
qed

text \<open>
  C6. For a response whose status is not in 200 to 299, \<open>handleSubmit\<close> shows one error
  notification whose message depends on the status only: \<^verbatim>\<open>Website not found\<close> for 404,
  \<^verbatim>\<open>Too many requests, please try again later\<close> for 429, \<^verbatim>\<open>Invalid URL format\<close> for 400
  and \<^verbatim>\<open>Failed to analyze website\<close> for every other status. The notification carries the
  action \<^verbatim>\<open>Try Again\<close>, and running that action is running the same \<open>handleSubmit\<close> with the
  original form event. No result is set and the loading flag is false afterwards.
\<close>

theorem failed_status_message:
  assumes "\<not> ok status"
  shows "snd (handleSubmit toLowerCase u e (Response status body) s) =
           [PreventDefault e,
            ToastLoading ''Analyzing website security...''
              ''Please wait while we check various security parameters.'',
            Fetch u,
            ToastError ''Analysis failed''
              (if status = 404 then ''Website not found''
               else if status = 429 then ''Too many requests, please try again later''
               else if status = 400 then ''Invalid URL format''
               else ''Failed to analyze website'')
              \<lparr>label = ''Try Again'', onClick = HandleSubmit u e\<rparr> 5000,
            ConsoleErr ''Error analyzing website:''] \<and>
         invoke toLowerCase (HandleSubmit u e) = handleSubmit toLowerCase u e \<and>
         fst (handleSubmit toLowerCase u e (Response status body) s) =
           s\<lparr>isLoading := False, analysisResult := None\<rparr>"
  using assms by (auto simp add: handleSubmit_def handleSubmit_try_def Let_def fun_eq_iff)

theorem failed_status_message_witness:
  "\<not> ok 429 \<and>
   snd (handleSubmit ascii_lower example_url 7 (Response 429 (Json sample_response)) fresh_home) =
     [PreventDefault 7,
      ToastLoading ''Analyzing website security...''
        ''Please wait while we check various security parameters.'',
      Fetch example_url,
      ToastError ''Analysis failed'' ''Too many requests, please try again later''
        \<lparr>label = ''Try Again'', onClick = HandleSubmit example_url 7\<rparr> 5000,
      ConsoleErr ''Error analyzing website:''] \<and>
   invoke ascii_lower (HandleSubmit example_url 7) (Response 429 (Json sample_response)) fresh_home =
     handleSubmit ascii_lower example_url 7 (Response 429 (Json sample_response)) fresh_home"
proof -
  have n: "\<not> ok 429" by (simp add: ok_def)
  note t = failed_status_message[OF n, of ascii_lower example_url 7 "Json sample_response" fresh_home]
  from t[THEN conjunct1] have "snd (handleSubmit ascii_lower example_url 7 (Response 429 (Json sample_response)) fresh_home) =
     [PreventDefault 7,
      ToastLoading ''Analyzing website security...''
        ''Please wait while we check various security parameters.'',
      Fetch example_url,
      ToastError ''Analysis failed'' ''Too many requests, please try again later''
        \<lparr>label = ''Try Again'', onClick = HandleSubmit example_url 7\<rparr> 5000,
      ConsoleErr ''Error analyzing website:'']" by simp
  moreover from t[THEN conjunct2, THEN conjunct1]
  have "invoke ascii_lower (HandleSubmit example_url 7) (Response 429 (Json sample_response)) fresh_home =
     handleSubmit ascii_lower example_url 7 (Response 429 (Json sample_response)) fresh_home"
    by (rule fun_cong[OF fun_cong])
  ultimately show ?thesis using n by blast
qed

text \<open>
  C9. For a response with a status in 200 to 299 and a body that parses, the result set
  by \<open>handleSubmit\<close> has the eight categories ssl, contentSecurity, vulnerabilities,
  phishing, malware, webAttacks, certificateTransparency and libraries, and the score of
  each of them is the \<^verbatim>\<open>overall_score\<close> of the response.
\<close>

theorem transform_scores:
  assumes "ok status"
  shows "analysisResult (fst (handleSubmit toLowerCase u e (Response status (Json data)) s)) =
           Some (transform toLowerCase data) \<and>
         map fst (transform toLowerCase data) =
           [''ssl'', ''contentSecurity'', ''vulnerabilities'', ''phishing'', ''malware'',
            ''webAttacks'', ''certificateTransparency'', ''libraries''] \<and>
         map (\<lambda>(k, c). score c) (transform toLowerCase data) = replicate 8 (overall_score data)"
proof -
  have "analysisResult (fst (handleSubmit toLowerCase u e (Response status (Json data)) s)) =
           Some (transform toLowerCase data)"
    using assms by (simp add: handleSubmit_def handleSubmit_try_def Let_def)
  moreover have "map fst (transform toLowerCase data) =
           [''ssl'', ''contentSecurity'', ''vulnerabilities'', ''phishing'', ''malware'',
            ''webAttacks'', ''certificateTransparency'', ''libraries'']"
    by (simp add: transform_def)
  moreover have "map (\<lambda>(k, c). score c) (transform toLowerCase data) = replicate 8 (overall_score data)"
    by (simp add: transform_def eval_nat_numeral)
  ultimately show ?thesis by simp
qed

theorem transform_scores_witness:
  "ok 200 \<and>
   map (\<lambda>(k, c). (k, score c))
     (the (analysisResult (fst (handleSubmit ascii_lower example_url 7 (Response 200 (Json sample_response)) fresh_home)))) =
     [(''ssl'', 72), (''contentSecurity'', 72), (''vulnerabilities'', 72), (''phishing'', 72),
      (''malware'', 72), (''webAttacks'', 72), (''certificateTransparency'', 72), (''libraries'', 72)]"
proof -
  have k: "ok 200" by (simp add: ok_def)
  from transform_scores[OF k, of ascii_lower example_url 7 sample_response fresh_home]
  have "analysisResult (fst (handleSubmit ascii_lower example_url 7 (Response 200 (Json sample_response)) fresh_home)) =
      Some (transform ascii_lower sample_response)" by simp
  moreover have "map (\<lambda>(k, c). (k, score c)) (transform ascii_lower sample_response) =
     [(''ssl'', 72), (''contentSecurity'', 72), (''vulnerabilities'', 72), (''phishing'', 72),
      (''malware'', 72), (''webAttacks'', 72), (''certificateTransparency'', 72), (''libraries'', 72)]"
    by (simp add: transform_def sample_response_def)
  ultimately show ?thesis using k by simp
qed


end
